theory Spec2Isabelle
  imports Main
begin

section \<open>The SQLite driver of libsql-client\<close>

text \<open>
  The module has one synchronous function, \<^verbatim>\<open>_batch(conn, stmts)\<close>, and a driver class
  whose \<^verbatim>\<open>batch\<close> coroutine runs it under an \<^verbatim>\<open>asyncio.Lock\<close>. The database engine
  (Python's \<^verbatim>\<open>sqlite3\<close> module) is not part of the module: it is a parameter of the
  embedding, a pair of step functions on an abstract connection state.
\<close>

subsection \<open>Exceptions\<close>

text \<open>
  Exceptions are values. \<^verbatim>\<open>except sqlite3.DatabaseError\<close> tests the class of the raised
  exception, so the class is part of the model: \<open>DatabaseError msg\<close> stands for any
  instance of \<^verbatim>\<open>sqlite3.DatabaseError\<close> (OperationalError, IntegrityError,
  ProgrammingError, ...) with \<^verbatim>\<open>str(e) = msg\<close>; \<open>OtherException msg\<close> stands for an
  exception that is not such an instance (OverflowError on an integer parameter beyond
  64 bits, sqlite3.InterfaceError, sqlite3.Warning). \<open>TypeError\<close> is what iterating over
  \<^verbatim>\<open>None\<close> raises; \<open>KeyError\<close> and \<open>IndexError\<close> are raised by lookups in a row;
  \<open>RuntimeError\<close> by releasing a lock that is not held.
\<close>

datatype py_exception =
    ClientResponseError string
  | DatabaseError string
  | OtherException string
  | TypeError
  | KeyError string
  | IndexError
  | RuntimeError

subsection \<open>Data\<close>

text \<open>
  Modelled from the spec: \<^verbatim>\<open>_RawStmt\<close> (driver.py is not among the sources), "an immutable
  pair of (SQL text, positional/named parameter values)"; \<^verbatim>\<open>_batch\<close> reads its fields
  \<^verbatim>\<open>sql\<close> and \<^verbatim>\<open>params\<close> and hands them to the engine.
\<close>

record 'p raw_stmt =
  sql :: string
  params :: 'p

text \<open>
  One entry of \<^verbatim>\<open>cursor.description\<close>: a 7-tuple whose item 0 is the column name (the
  other six are \<^verbatim>\<open>None\<close> in sqlite3).
\<close>

datatype column_descr = ColumnDescr (descr0: string)

text \<open>
  What \<^verbatim>\<open>_batch\<close> reads of a cursor. \<^verbatim>\<open>cursor.description\<close> is \<^verbatim>\<open>None\<close> for a statement
  that produces no columns (INSERT, UPDATE, DELETE, CREATE TABLE) and a tuple of
  descriptors otherwise. \<^verbatim>\<open>cursor.fetchall()\<close> returns the remaining rows or raises (the
  engine steps the statement lazily).
\<close>

record 'v cursor =
  description :: "column_descr list option"
  fetchall :: "py_exception + 'v list list"

text \<open>
  The two methods of \<^verbatim>\<open>sqlite3.Connection\<close> that \<^verbatim>\<open>_batch\<close> calls, on a connection
  state \<open>'c\<close>. Each returns its outcome and the connection state after the call.
\<close>

record ('c, 'p, 'v) engine =
  rollback :: "'c \<Rightarrow> py_exception option \<times> 'c"
  execute :: "'c \<Rightarrow> 'p raw_stmt \<Rightarrow> (py_exception + 'v cursor) \<times> 'c"

text \<open>
  Modelled from the spec: \<^verbatim>\<open>Row\<close> and \<^verbatim>\<open>ResultSet\<close> (result.py is not among the sources).
  \<^verbatim>\<open>Row(column_idxs, row)\<close> and \<^verbatim>\<open>ResultSet(columns, rows)\<close> hold what \<^verbatim>\<open>_batch\<close> gives
  them: a row is its values and the lookup structure, a result set its column names and its
  rows. The dictionary is shared by all rows of a statement and never changed; the model
  copies the value.
\<close>

record 'v row =
  column_idxs :: "string \<rightharpoonup> nat"
  row_values :: "'v list"

record 'v result_set =
  columns :: "string list"
  rows :: "'v row list"

text \<open>
  Modelled from the spec: the two lookups of class \<^verbatim>\<open>Row\<close> (result.py is not among the
  sources). A row is "a fixed-size ordered sequence of column values plus a lookup
  structure mapping column name \<rightarrow> positional index": a value is read by position, or by
  name through the lookup structure. A missing name and a position past the end raise.
\<close>

definition row_get_idx :: "'v row \<Rightarrow> nat \<Rightarrow> py_exception + 'v" where
  "row_get_idx r i =
     (if i < length (row_values r) then Inr (row_values r ! i) else Inl IndexError)"

definition row_get_name :: "'v row \<Rightarrow> string \<Rightarrow> py_exception + 'v" where
  "row_get_name r name =
     (case column_idxs r name of
        None \<Rightarrow> Inl (KeyError name)
      | Some idx \<Rightarrow> row_get_idx r idx)"

subsection \<open>\<^verbatim>\<open>_batch\<close>\<close>

text \<open>
  \<^verbatim>\<open>{name: idx for (idx, name) in enumerate(columns)}\<close>: the pairs are stored in order, a
  later one replacing an earlier one with the same key.
\<close>

definition build_column_idxs :: "string list \<Rightarrow> (string \<rightharpoonup> nat)" where
  "build_column_idxs cols =
     fold (\<lambda>(idx, name) m. m(name \<mapsto> idx)) (enumerate 0 cols) Map.empty"

text \<open>
  The \<^verbatim>\<open>for stmt in stmts\<close> loop, with \<^verbatim>\<open>result_sets\<close> as accumulator. Only
  \<^verbatim>\<open>conn.execute\<close> stands inside the \<^verbatim>\<open>try\<close>, and only an instance of
  \<^verbatim>\<open>sqlite3.DatabaseError\<close> is caught there and raised again as
  \<^verbatim>\<open>ClientResponseError(str(e))\<close>; every other exception leaves the function as it is.
\<close>

fun batch_loop ::
  "('c, 'p, 'v) engine \<Rightarrow> 'c \<Rightarrow> 'p raw_stmt list \<Rightarrow> 'v result_set list
     \<Rightarrow> (py_exception + 'v result_set list) \<times> 'c" where
  "batch_loop eng conn [] result_sets = (Inr result_sets, conn)"
| "batch_loop eng conn (stmt # stmts) result_sets =
     (case execute eng conn stmt of
        (Inl e, conn') \<Rightarrow>
          (case e of
             DatabaseError msg \<Rightarrow> (Inl (ClientResponseError msg), conn')
           | _ \<Rightarrow> (Inl e, conn'))
      | (Inr cur, conn') \<Rightarrow>
          (case description cur of
             None \<Rightarrow> (Inl TypeError, conn')
           | Some descrs \<Rightarrow>
               (let cols = map descr0 descrs;
                    idxs = build_column_idxs cols
                in case fetchall cur of
                     Inl e \<Rightarrow> (Inl e, conn')
                   | Inr fetched \<Rightarrow>
                       batch_loop eng conn' stmts
                         (result_sets @
                            [\<lparr>columns = cols,
                              rows = map (\<lambda>vs. \<lparr>column_idxs = idxs, row_values = vs\<rparr>) fetched\<rparr>]))))"

text \<open>
  \<^verbatim>\<open>_batch\<close>: \<^verbatim>\<open>conn.rollback()\<close> first, outside any \<^verbatim>\<open>try\<close>, then the loop from an
  empty \<^verbatim>\<open>result_sets\<close>.
\<close>

definition batch' ::
  "('c, 'p, 'v) engine \<Rightarrow> 'c \<Rightarrow> 'p raw_stmt list
     \<Rightarrow> (py_exception + 'v result_set list) \<times> 'c" where
  "batch' eng conn stmts =
     (case rollback eng conn of
        (Some e, conn') \<Rightarrow> (Inl e, conn')
      | (None, conn') \<Rightarrow> batch_loop eng conn' stmts [])"

subsection \<open>The driver's \<^verbatim>\<open>batch\<close>\<close>

text \<open>
  \<^verbatim>\<open>asyncio.Lock\<close>, as one task sees it: \<^verbatim>\<open>acquire\<close> takes a free lock and suspends the
  caller on a held one (\<open>None\<close>: the call does not return until another task releases);
  \<^verbatim>\<open>release\<close> frees a held lock and raises on a free one.
\<close>

record lock =
  locked :: bool

definition acquire :: "lock \<Rightarrow> lock option" where
  "acquire l = (if locked l then None else Some (l\<lparr>locked := True\<rparr>))"

definition release :: "lock \<Rightarrow> py_exception + lock" where
  "release l = (if locked l then Inr (l\<lparr>locked := False\<rparr>) else Inl RuntimeError)"

text \<open>
  The fields of \<^verbatim>\<open>_SqliteDriver\<close> that \<^verbatim>\<open>batch\<close> changes (\<^verbatim>\<open>_conn\<close>, \<^verbatim>\<open>_conn_lock\<close>); the
  executor only chooses the thread that runs \<^verbatim>\<open>_batch\<close>.
\<close>

record 'c sqlite_driver =
  driver_conn :: 'c
  driver_conn_lock :: lock

text \<open>
  \<^verbatim>\<open>async with self._conn_lock: return await loop.run_in_executor(..., _batch(...))\<close>.
  The context manager acquires on entry and releases on exit, whether the body returned
  or raised, and the body's outcome is the outcome of the call. \<open>None\<close> is a call
  suspended at the lock.
\<close>

definition batch ::
  "('c, 'p, 'v) engine \<Rightarrow> 'c sqlite_driver \<Rightarrow> 'p raw_stmt list
     \<Rightarrow> ((py_exception + 'v result_set list) \<times> 'c sqlite_driver) option" where
  "batch eng self stmts =
     (case acquire (driver_conn_lock self) of
        None \<Rightarrow> None
      | Some held \<Rightarrow>
          (case batch' eng (driver_conn self) stmts of
             (outcome, conn') \<Rightarrow>
               (case release held of
                  Inl e \<Rightarrow> Some (Inl e, \<lparr>driver_conn = conn', driver_conn_lock = held\<rparr>)
                | Inr free \<Rightarrow> Some (outcome, \<lparr>driver_conn = conn', driver_conn_lock = free\<rparr>))))"

subsection \<open>Observing the calls on the handle\<close>

text \<open>
  To state in which order \<^verbatim>\<open>_batch\<close> calls the handle, an engine is wrapped so that
  its connection state also carries the list of calls made so far. The wrapper answers
  as the engine does.
\<close>

datatype 'p handle_op = Rollback | Execute "'p raw_stmt"

definition logged ::
  "('c, 'p, 'v) engine \<Rightarrow> ('c \<times> 'p handle_op list, 'p, 'v) engine" where
  "logged eng =
     \<lparr>rollback = (\<lambda>(c, ops). case rollback eng c of (r, c') \<Rightarrow> (r, (c', ops @ [Rollback]))),
      execute = (\<lambda>(c, ops) stmt.
                   case execute eng c stmt of (r, c') \<Rightarrow> (r, (c', ops @ [Execute stmt])))\<rparr>"

subsection \<open>A test double for the engine\<close>

text \<open>
  Closed statements about \<^verbatim>\<open>_batch\<close> need a concrete engine. \<open>mini_sqlite\<close> answers a
  handful of statements over one table \<^verbatim>\<open>t(id)\<close> of integers the way CPython's sqlite3
  answers them on such a database: an INSERT returns a cursor without description and
  without rows; a SELECT returns descriptors and rows; an integer parameter outside 64
  bits raises OverflowError, which is not a \<^verbatim>\<open>sqlite3.DatabaseError\<close>; a closed
  connection raises ProgrammingError, which is one. Any other text is refused.
\<close>

record mini_db =
  closed :: bool
  t_rows :: "int list"

definition mini_cursor :: "string list \<Rightarrow> int list list \<Rightarrow> int cursor" where
  "mini_cursor names fetched =
     \<lparr>description = Some (map ColumnDescr names), fetchall = Inr fetched\<rparr>"

definition mini_rollback :: "mini_db \<Rightarrow> py_exception option \<times> mini_db" where
  "mini_rollback db =
     (if closed db then (Some (DatabaseError ''Cannot operate on a closed database.''), db)
      else (None, db))"

definition mini_execute ::
  "mini_db \<Rightarrow> int list raw_stmt \<Rightarrow> (py_exception + int cursor) \<times> mini_db" where
  "mini_execute db stmt =
     (if closed db then (Inl (DatabaseError ''Cannot operate on a closed database.''), db)
      else if sql stmt = ''INSERT INTO t VALUES (1)'' then
        (Inr \<lparr>description = None, fetchall = Inr []\<rparr>, db\<lparr>t_rows := t_rows db @ [1]\<rparr>)
      else if sql stmt = ''SELECT * FROM t'' then
        (Inr (mini_cursor [''id''] (map (\<lambda>v. [v]) (t_rows db))), db)
      else if sql stmt = ''SELECT 1 AS a, 2 AS a'' then
        (Inr (mini_cursor [''a'', ''a''] [[1, 2]]), db)
      else if sql stmt = ''SELECT ?'' then
        (case params stmt of
           [v] \<Rightarrow>
             (if - (2 ^ 63) \<le> v \<and> v < 2 ^ 63 then (Inr (mini_cursor [''?''] [[v]]), db)
              else (Inl (OtherException ''Python int too large to convert to SQLite INTEGER''), db))
         | _ \<Rightarrow> (Inl (DatabaseError ''Incorrect number of bindings supplied.''), db))
      else if sql stmt = ''SELECT * FROM missing'' then
        (Inl (DatabaseError ''no such table: missing''), db)
      else (Inl (DatabaseError ''statement not known to the test double''), db))"

definition mini_sqlite :: "(mini_db, int list, int) engine" where
  "mini_sqlite = \<lparr>rollback = mini_rollback, execute = mini_execute\<rparr>"

definition empty_db :: mini_db where
  "empty_db = \<lparr>closed = False, t_rows = []\<rparr>"

definition closed_db :: mini_db where
  "closed_db = \<lparr>closed = True, t_rows = []\<rparr>"

definition mk_stmt :: "string \<Rightarrow> int list \<Rightarrow> int list raw_stmt" where
  "mk_stmt text ps = \<lparr>sql = text, params = ps\<rparr>"

subsection \<open>The lookup shared by the rows of a result set\<close>

text \<open>
  Every row of a result set built by the loop holds the dictionary computed from that result
  set's own column names.
\<close>

definition rows_share_lookup :: "'v result_set \<Rightarrow> bool" where
  "rows_share_lookup rs =
     list_all (\<lambda>r. column_idxs r = build_column_idxs (columns rs)) (rows rs)"

text \<open>
  The row that \<^verbatim>\<open>SELECT 1 AS a, 2 AS a\<close> produces, and a driver at rest on the empty
  database.
\<close>

definition dup_row :: "int row" where
  "dup_row = \<lparr>column_idxs = build_column_idxs [''a'', ''a''], row_values = [1, 2]\<rparr>"


section \<open>Properties of the loop\<close>

text \<open>
  The loop over a concatenation is the loop over the first part followed, when that part
  raised nothing, by the loop over the second part from the state and the result sets
  reached.
\<close>

lemma batch_loop_append:
  "batch_loop eng c (pre @ post) acc =
     (case batch_loop eng c pre acc of
        (Inl e, c') \<Rightarrow> (Inl e, c')
      | (Inr rs, c') \<Rightarrow> batch_loop eng c' post rs)"
  by (induction pre arbitrary: c acc)
     (auto simp: Let_def split: prod.splits sum.splits option.splits py_exception.splits)

lemma logged_rollback:
  "rollback (logged eng) (c, ops) = (fst (rollback eng c), (snd (rollback eng c), ops @ [Rollback]))"
  by (simp add: logged_def split: prod.splits)

lemma logged_execute:
  "execute (logged eng) (c, ops) s =
     (fst (execute eng c s), (snd (execute eng c s), ops @ [Execute s]))"
  by (simp add: logged_def split: prod.splits)

lemma batch_loop_logged_answer:
  "fst (batch_loop (logged eng) (c, ops) stmts acc) = fst (batch_loop eng c stmts acc) \<and>
   fst (snd (batch_loop (logged eng) (c, ops) stmts acc)) = snd (batch_loop eng c stmts acc)"
  by (induction stmts arbitrary: c ops acc)
     (auto simp: logged_execute Let_def split: prod.splits sum.splits option.splits py_exception.splits)

lemma batch_loop_logged_ops:
  "\<exists>k\<le>length stmts.
     snd (snd (batch_loop (logged eng) (c, ops) stmts acc)) = ops @ map Execute (take k stmts)"
proof (induction stmts arbitrary: c ops acc)
  case Nil
  then show ?case by simp
next
  case (Cons s stmts)
  obtain r c1 where ex: "execute eng c s = (r, c1)" by (cases "execute eng c s")
  have stop: "\<exists>k\<le>length (s # stmts). ops @ [Execute s] = ops @ map Execute (take k (s # stmts))"
    by (rule exI [of _ 1]) simp
  show ?case
  proof (cases r)
    case (Inl e)
    with ex stop show ?thesis
      by (cases e) (simp_all add: logged_execute)
  next
    case (Inr cur)
    show ?thesis
    proof (cases "description cur")
      case None
      with ex Inr stop show ?thesis by (simp add: logged_execute)
    next
      case (Some ds)
      show ?thesis
      proof (cases "fetchall cur")
        case (Inl e)
        with ex Inr Some stop show ?thesis by (simp add: logged_execute)
      next
        case f: (Inr fetched)
        let ?acc = "acc @ [\<lparr>columns = map descr0 ds,
            rows = map (\<lambda>vs. \<lparr>column_idxs = build_column_idxs (map descr0 ds), row_values = vs\<rparr>) fetched\<rparr>]"
        from Cons.IH [of c1 "ops @ [Execute s]" ?acc]
        obtain k where k: "k \<le> length stmts"
          "snd (snd (batch_loop (logged eng) (c1, ops @ [Execute s]) stmts ?acc)) =
             (ops @ [Execute s]) @ map Execute (take k stmts)" by blast
        have "snd (snd (batch_loop (logged eng) (c, ops) (s # stmts) acc)) =
                ops @ map Execute (take (Suc k) (s # stmts))"
          using ex Inr Some f k(2) by (simp add: logged_execute Let_def)
        with k(1) show ?thesis by (intro exI [of _ "Suc k"]) simp
      qed
    qed
  qed
qed

lemma batch_loop_logged_ok:
  "batch_loop eng c stmts acc = (Inr rs, c') \<Longrightarrow>
   batch_loop (logged eng) (c, ops) stmts acc = (Inr rs, (c', ops @ map Execute stmts))"
  by (induction stmts arbitrary: c ops acc)
     (auto simp: logged_execute Let_def split: prod.splits sum.splits option.splits py_exception.splits)

lemma batch_loop_length:
  "batch_loop eng c stmts acc = (Inr rs, c') \<Longrightarrow> length rs = length acc + length stmts"
  by (induction stmts arbitrary: c acc)
     (auto simp: Let_def split: prod.splits sum.splits option.splits py_exception.splits)

section \<open>The dictionary of column positions\<close>

lemma fold_enumerate_other:
  "name \<notin> set xs \<Longrightarrow>
   fold (\<lambda>(idx, name) m. m(name \<mapsto> idx)) (enumerate n xs) m name = m name"
  by (induction xs arbitrary: n m) auto

lemma build_column_idxs_split:
  "name \<notin> set zs \<Longrightarrow> build_column_idxs (ys @ name # zs) name = Some (length ys)"
  by (simp add: build_column_idxs_def enumerate_append_eq fold_enumerate_other)

lemma build_column_idxs_last:
  assumes "i < length cols" and "cols ! i \<notin> set (drop (Suc i) cols)"
  shows "build_column_idxs cols (cols ! i) = Some i"
proof -
  have "cols = take i cols @ cols ! i # drop (Suc i) cols"
    using assms(1) by (rule id_take_nth_drop)
  then have "build_column_idxs cols (cols ! i) =
      build_column_idxs (take i cols @ cols ! i # drop (Suc i) cols) (cols ! i)" by simp
  also have "\<dots> = Some (length (take i cols))"
    using assms(2) by (rule build_column_idxs_split)
  finally show ?thesis using assms(1) by simp
qed

lemma build_column_idxs_absent:
  "name \<notin> set cols \<Longrightarrow> build_column_idxs cols name = None"
  by (simp add: build_column_idxs_def fold_enumerate_other)

lemma batch_loop_Cons_Inr:
  assumes "batch_loop eng c (s # stmts) acc = (Inr out, c')"
  obtains cur c1 ds fetched where
    "execute eng c s = (Inr cur, c1)" and "description cur = Some ds" and
    "fetchall cur = Inr fetched" and
    "batch_loop eng c1 stmts
       (acc @ [\<lparr>columns = map descr0 ds,
                rows = map (\<lambda>vs. \<lparr>column_idxs = build_column_idxs (map descr0 ds),
                                   row_values = vs\<rparr>) fetched\<rparr>]) = (Inr out, c')"
  using assms
  by (auto simp: Let_def split: prod.splits sum.splits option.splits py_exception.splits)

lemma batch_loop_rows:
  "batch_loop eng c stmts acc = (Inr out, c') \<Longrightarrow> list_all rows_share_lookup acc \<Longrightarrow>
   list_all rows_share_lookup out"
proof (induction stmts arbitrary: c acc)
  case Nil
  then show ?case by simp
next
  case (Cons s stmts)
  from Cons.prems(1) obtain cur c1 ds fetched where
    "execute eng c s = (Inr cur, c1)" and
    rest: "batch_loop eng c1 stmts
       (acc @ [\<lparr>columns = map descr0 ds,
                rows = map (\<lambda>vs. \<lparr>column_idxs = build_column_idxs (map descr0 ds),
                                   row_values = vs\<rparr>) fetched\<rparr>]) = (Inr out, c')"
    by (rule batch_loop_Cons_Inr)
  have "rows_share_lookup \<lparr>columns = map descr0 ds,
      rows = map (\<lambda>vs. \<lparr>column_idxs = build_column_idxs (map descr0 ds),
                         row_values = vs\<rparr>) fetched\<rparr>"
    by (simp add: rows_share_lookup_def list_all_iff)
  with Cons.prems(2) have "list_all rows_share_lookup
      (acc @ [\<lparr>columns = map descr0 ds,
                rows = map (\<lambda>vs. \<lparr>column_idxs = build_column_idxs (map descr0 ds),
                                   row_values = vs\<rparr>) fetched\<rparr>])" by simp
  with rest show ?case by (rule Cons.IH)
qed

lemma batch'_rows:
  assumes "batch' eng c stmts = (Inr out, c')" and "rs \<in> set out" and "r \<in> set (rows rs)"
  shows "column_idxs r = build_column_idxs (columns rs)"
proof -
  obtain c0 where "batch_loop eng c0 stmts [] = (Inr out, c')"
    using assms(1) by (auto simp: batch'_def split: prod.splits option.splits)
  then have "list_all rows_share_lookup out" by (rule batch_loop_rows) simp
  with assms(2,3) show ?thesis by (simp add: list_all_iff rows_share_lookup_def)
qed

section \<open>Length and order of the result sets\<close>

text \<open>
  Whenever \<^verbatim>\<open>_batch\<close> returns, it returns one result set per statement, and the result set
  at position \<open>i\<close> is built from the cursor that statement \<open>i\<close> produced in the state
  the statements before it left.
\<close>

lemma batch_loop_extends:
  "batch_loop eng c stmts acc = (Inr out, c') \<Longrightarrow>
   take (length acc) out = acc \<and> length out = length acc + length stmts"
proof (induction stmts arbitrary: c acc)
  case Nil
  then show ?case by simp
next
  case (Cons s stmts)
  from Cons.prems obtain cur c1 ds fetched where
    "execute eng c s = (Inr cur, c1)" and
    rest: "batch_loop eng c1 stmts
       (acc @ [\<lparr>columns = map descr0 ds,
                rows = map (\<lambda>vs. \<lparr>column_idxs = build_column_idxs (map descr0 ds),
                                   row_values = vs\<rparr>) fetched\<rparr>]) = (Inr out, c')"
    by (rule batch_loop_Cons_Inr)
  from Cons.IH [OF rest]
  have t: "take (Suc (length acc)) out = acc @ [\<lparr>columns = map descr0 ds,
                rows = map (\<lambda>vs. \<lparr>column_idxs = build_column_idxs (map descr0 ds),
                                   row_values = vs\<rparr>) fetched\<rparr>]"
    and l: "length out = Suc (length acc) + length stmts" by simp_all
  have "take (length acc) out = take (length acc) (take (Suc (length acc)) out)"
    by (simp add: min_def)
  also have "\<dots> = acc" by (simp add: t)
  finally show ?case using l by simp
qed

lemma batch'_nth:
  assumes "batch' eng c stmts = (Inr rs, c')" and "i < length stmts"
  shows "\<exists>c1 cur c2 ds fetched.
           batch' eng c (take i stmts) = (Inr (take i rs), c1) \<and>
           execute eng c1 (stmts ! i) = (Inr cur, c2) \<and>
           description cur = Some ds \<and> fetchall cur = Inr fetched \<and>
           rs ! i = \<lparr>columns = map descr0 ds,
                     rows = map (\<lambda>vs. \<lparr>column_idxs = build_column_idxs (map descr0 ds),
                                        row_values = vs\<rparr>) fetched\<rparr>"
proof -
  obtain c0 where rb: "rollback eng c = (None, c0)"
    and all: "batch_loop eng c0 stmts [] = (Inr rs, c')"
    using assms(1) by (auto simp: batch'_def split: prod.splits option.splits)
  have split: "stmts = take i stmts @ stmts ! i # drop (Suc i) stmts"
    using assms(2) by (rule id_take_nth_drop)
  have "batch_loop eng c0 (take i stmts @ stmts ! i # drop (Suc i) stmts) [] = (Inr rs, c')"
    using all split by simp
  then obtain rs1 c1 where
    pre: "batch_loop eng c0 (take i stmts) [] = (Inr rs1, c1)" and
    post: "batch_loop eng c1 (stmts ! i # drop (Suc i) stmts) rs1 = (Inr rs, c')"
    by (auto simp: batch_loop_append split: prod.splits sum.splits)
  from post obtain cur c2 ds fetched where
    ex: "execute eng c1 (stmts ! i) = (Inr cur, c2)" "description cur = Some ds"
      "fetchall cur = Inr fetched" and
    rest: "batch_loop eng c2 (drop (Suc i) stmts)
       (rs1 @ [\<lparr>columns = map descr0 ds,
                rows = map (\<lambda>vs. \<lparr>column_idxs = build_column_idxs (map descr0 ds),
                                   row_values = vs\<rparr>) fetched\<rparr>]) = (Inr rs, c')"
    by (rule batch_loop_Cons_Inr)
  have len1: "length rs1 = i"
    using batch_loop_extends [OF pre] assms(2) by simp
  have tk: "take (Suc i) rs = rs1 @ [\<lparr>columns = map descr0 ds,
                rows = map (\<lambda>vs. \<lparr>column_idxs = build_column_idxs (map descr0 ds),
                                   row_values = vs\<rparr>) fetched\<rparr>]"
    and len: "length rs = Suc i + length (drop (Suc i) stmts)"
    using batch_loop_extends [OF rest] len1 by simp_all
  have "take i rs = take i (take (Suc i) rs)" by (simp add: min_def)
  then have t1: "take i rs = rs1" using tk len1 by simp
  have "rs ! i = take (Suc i) rs ! i" by simp
  then have n: "rs ! i = \<lparr>columns = map descr0 ds,
                rows = map (\<lambda>vs. \<lparr>column_idxs = build_column_idxs (map descr0 ds),
                                   row_values = vs\<rparr>) fetched\<rparr>"
    using tk len1 by (simp add: nth_append)
  have "batch' eng c (take i stmts) = (Inr (take i rs), c1)"
    using rb pre t1 by (simp add: batch'_def)
  with ex n show ?thesis by blast
qed

lemma batch'_length:
  "batch' eng c stmts = (Inr rs, c') \<Longrightarrow> length rs = length stmts"
  by (auto simp: batch'_def split: prod.splits option.splits dest: batch_loop_length)

section \<open>The wrapper and the test double\<close>

text \<open>The logging wrapper does not change what \<^verbatim>\<open>_batch\<close> returns or does to the connection.\<close>

lemma batch'_logged_answer:
  "fst (batch' (logged eng) (c, ops) stmts) = fst (batch' eng c stmts) \<and>
   fst (snd (batch' (logged eng) (c, ops) stmts)) = snd (batch' eng c stmts)"
proof (cases "rollback eng c")
  case (Pair r c0)
  then show ?thesis
    using batch_loop_logged_answer [of eng c0 "ops @ [Rollback]" stmts "[]"]
    by (cases r) (simp_all add: batch'_def logged_rollback)
qed

text \<open>What the test double answers to the batches used below.\<close>

lemma select_batch:
  "batch' mini_sqlite empty_db [mk_stmt ''SELECT * FROM t'' []] =
     (Inr [\<lparr>columns = [''id''], rows = []\<rparr>], empty_db)"
  by (simp add: batch'_def mini_sqlite_def mini_rollback_def mini_execute_def mini_cursor_def
        empty_db_def mk_stmt_def Let_def)

lemma missing_execute:
  "execute mini_sqlite empty_db (mk_stmt ''SELECT * FROM missing'' []) =
     (Inl (DatabaseError ''no such table: missing''), empty_db)"
  by (simp add: mini_sqlite_def mini_execute_def empty_db_def mk_stmt_def)

lemma dup_batch:
  "batch' mini_sqlite empty_db [mk_stmt ''SELECT 1 AS a, 2 AS a'' []] =
     (Inr [\<lparr>columns = [''a'', ''a''], rows = [dup_row]\<rparr>], empty_db)"
  by (simp add: batch'_def mini_sqlite_def mini_rollback_def mini_execute_def mini_cursor_def
        empty_db_def mk_stmt_def dup_row_def Let_def)

lemma dup_row_lookups:
  "row_get_name dup_row ''a'' = Inr 2" "row_get_idx dup_row 0 = Inr 1"
  "row_get_idx dup_row 1 = Inr 2" "column_idxs dup_row ''a'' = Some 1"
  by (simp_all add: dup_row_def row_get_name_def row_get_idx_def build_column_idxs_def)

section \<open>A statement that produces no columns\<close>

text \<open>
  A statement that executes and whose cursor has no description ends the batch with
  \<open>TypeError\<close>: the loop iterates over \<^verbatim>\<open>cursor.description\<close> without testing it. The
  statement has run; its result set is never built.
\<close>

lemma batch'_no_description:
  assumes "batch' eng c pre = (Inr rs, c1)"
      and "execute eng c1 s = (Inr cur, c2)" and "description cur = None"
  shows "batch' eng c (pre @ s # post) = (Inl TypeError, c2)"
proof -
  obtain r c0 where rb: "rollback eng c = (r, c0)" by (cases "rollback eng c")
  with assms(1) have "r = None" and "batch_loop eng c0 pre [] = (Inr rs, c1)"
    by (auto simp: batch'_def split: option.splits)
  then show ?thesis using rb assms(2,3) by (simp add: batch'_def batch_loop_append)
qed

text \<open>
  \<^verbatim>\<open>cursor.fetchall()\<close> stands outside the \<^verbatim>\<open>try\<close> as well: what it raises leaves
  \<^verbatim>\<open>_batch\<close> unchanged, whatever its class.
\<close>

lemma batch'_fetchall_failure:
  assumes "batch' eng c pre = (Inr rs, c1)"
      and "execute eng c1 s = (Inr cur, c2)" and "description cur = Some ds"
      and "fetchall cur = Inl e"
  shows "batch' eng c (pre @ s # post) = (Inl e, c2)"
proof -
  obtain r c0 where rb: "rollback eng c = (r, c0)" by (cases "rollback eng c")
  with assms(1) have "r = None" and "batch_loop eng c0 pre [] = (Inr rs, c1)"
    by (auto simp: batch'_def split: option.splits)
  then show ?thesis using rb assms(2-4) by (simp add: batch'_def batch_loop_append)
qed

text \<open>
  C1 (every statement executes successfully: as many result sets as statements, in order).
  On the test double both statements of the batch \<^verbatim>\<open>[SELECT * FROM t, INSERT INTO t
  VALUES (1)]\<close> execute successfully, the INSERT returning a cursor whose description is
  \<^verbatim>\<open>None\<close>, and \<^verbatim>\<open>_batch\<close> raises \<open>TypeError\<close> instead of returning two result sets; the
  row has been inserted. (When \<^verbatim>\<open>_batch\<close> does return, \<open>batch'_length\<close> and
  \<open>batch'_nth\<close> give the length and the order.)
\<close>

theorem successful_statement_without_columns:
  "fst (execute mini_sqlite empty_db (mk_stmt ''SELECT * FROM t'' [])) =
     Inr (mini_cursor [''id''] []) \<and>
   fst (execute mini_sqlite empty_db (mk_stmt ''INSERT INTO t VALUES (1)'' [])) =
     Inr \<lparr>description = None, fetchall = Inr []\<rparr> \<and>
   batch' mini_sqlite empty_db
     [mk_stmt ''SELECT * FROM t'' [], mk_stmt ''INSERT INTO t VALUES (1)'' []] =
     (Inl TypeError, \<lparr>closed = False, t_rows = [1]\<rparr>)"
  by (simp add: batch'_def mini_sqlite_def mini_rollback_def mini_execute_def mini_cursor_def
        empty_db_def mk_stmt_def Let_def)

section \<open>Failing statements\<close>

text \<open>
  C2, as amended (a batch whose earlier statements each gave a result set and whose next
  statement fails in \<^verbatim>\<open>conn.execute\<close>). Let the statements \<open>pre\<close> run as a batch of their
  own return result sets and leave the connection in \<open>c1\<close>, and let \<^verbatim>\<open>conn.execute\<close> raise
  \<open>e\<close> on \<open>s\<close> there. Then the batch \<open>pre @ s # post\<close> returns no result set and raises
  \<open>ClientResponseError msg\<close> when \<open>e\<close> is a \<open>DatabaseError\<close> with message \<open>msg\<close>, and \<open>e\<close>
  itself otherwise; the calls on the handle are the rollback, the statements of \<open>pre\<close> and
  \<open>s\<close>, in this order, and no statement of \<open>post\<close>.
\<close>

theorem batch_stops_at_first_failure:
  assumes "batch' eng c pre = (Inr rs, c1)"
      and "execute eng c1 s = (Inl e, c2)"
  shows "batch' eng c (pre @ s # post) =
           (Inl (case e of DatabaseError msg \<Rightarrow> ClientResponseError msg | _ \<Rightarrow> e), c2) \<and>
         snd (snd (batch' (logged eng) (c, []) (pre @ s # post))) =
           Rollback # map Execute (pre @ [s])"
proof -
  obtain r c0 where rb: "rollback eng c = (r, c0)" by (cases "rollback eng c")
  with assms(1) have r: "r = None" and pre: "batch_loop eng c0 pre [] = (Inr rs, c1)"
    by (auto simp: batch'_def split: option.splits)
  have one: "batch_loop eng c1 (s # post) rs =
      (Inl (case e of DatabaseError msg \<Rightarrow> ClientResponseError msg | _ \<Rightarrow> e), c2)"
    using assms(2) by (cases e) simp_all
  have a: "batch' eng c (pre @ s # post) =
      (Inl (case e of DatabaseError msg \<Rightarrow> ClientResponseError msg | _ \<Rightarrow> e), c2)"
    using rb r pre one by (simp add: batch'_def batch_loop_append)
  have lone: "snd (snd (batch_loop (logged eng) (c1, ops) (s # post) rs)) = ops @ [Execute s]"
    for ops
    using assms(2) by (cases e) (simp_all add: logged_execute)
  have b: "snd (snd (batch' (logged eng) (c, []) (pre @ s # post))) =
      Rollback # map Execute (pre @ [s])"
    using rb r batch_loop_logged_ok [OF pre, of "[Rollback]"] lone
    by (simp add: batch'_def logged_rollback batch_loop_append)
  from a b show ?thesis by blast
qed

text \<open>
  The theorem at \<^verbatim>\<open>[SELECT * FROM t, SELECT * FROM missing, SELECT * FROM t]\<close>: the second
  statement fails with a database error, the third is never executed.
\<close>

theorem batch_stops_at_first_failure_witness:
  "batch' mini_sqlite empty_db [mk_stmt ''SELECT * FROM t'' []] =
     (Inr [\<lparr>columns = [''id''], rows = []\<rparr>], empty_db) \<and>
   execute mini_sqlite empty_db (mk_stmt ''SELECT * FROM missing'' []) =
     (Inl (DatabaseError ''no such table: missing''), empty_db) \<and>
   batch' mini_sqlite empty_db
     [mk_stmt ''SELECT * FROM t'' [], mk_stmt ''SELECT * FROM missing'' [],
      mk_stmt ''SELECT * FROM t'' []] =
     (Inl (ClientResponseError ''no such table: missing''), empty_db) \<and>
   snd (snd (batch' (logged mini_sqlite) (empty_db, [])
     [mk_stmt ''SELECT * FROM t'' [], mk_stmt ''SELECT * FROM missing'' [],
      mk_stmt ''SELECT * FROM t'' []])) =
     [Rollback, Execute (mk_stmt ''SELECT * FROM t'' []),
      Execute (mk_stmt ''SELECT * FROM missing'' [])]"
  using batch_stops_at_first_failure [OF select_batch missing_execute,
      of "[mk_stmt ''SELECT * FROM t'' []]"]
  by (simp add: select_batch missing_execute)

text \<open>
  C2 as stated fails: an integer parameter beyond 64 bits makes \<^verbatim>\<open>conn.execute\<close> raise
  OverflowError, which is not a \<^verbatim>\<open>sqlite3.DatabaseError\<close>; the \<^verbatim>\<open>except\<close> clause does not
  match and the caller receives that exception, not a client response error.
\<close>

theorem non_database_error_propagates:
  "fst (execute mini_sqlite empty_db (mk_stmt ''SELECT ?'' [2 ^ 70])) =
     Inl (OtherException ''Python int too large to convert to SQLite INTEGER'') \<and>
   fst (batch' mini_sqlite empty_db [mk_stmt ''SELECT ?'' [2 ^ 70]]) =
     Inl (OtherException ''Python int too large to convert to SQLite INTEGER'')"
  by (simp add: batch'_def mini_sqlite_def mini_rollback_def mini_execute_def
        empty_db_def mk_stmt_def)

section \<open>The scenario of an INSERT followed by a SELECT\<close>

text \<open>
  C4 (the batch \<^verbatim>\<open>[INSERT INTO t VALUES (1)]\<close> on the empty table returns one empty result
  set, then \<^verbatim>\<open>[SELECT * FROM t]\<close> returns column \<^verbatim>\<open>id\<close> and one row \<^verbatim>\<open>[1]\<close>). The first
  batch inserts the row and raises \<open>TypeError\<close>, since the INSERT's cursor has no
  description; it returns no result set. The second batch, on the database the first one
  left, returns what the scenario says.
\<close>

theorem insert_then_select_scenario:
  "batch' mini_sqlite empty_db [mk_stmt ''INSERT INTO t VALUES (1)'' []] =
     (Inl TypeError, \<lparr>closed = False, t_rows = [1]\<rparr>) \<and>
   batch' mini_sqlite \<lparr>closed = False, t_rows = [1]\<rparr> [mk_stmt ''SELECT * FROM t'' []] =
     (Inr [\<lparr>columns = [''id''],
            rows = [\<lparr>column_idxs = build_column_idxs [''id''], row_values = [1]\<rparr>]\<rparr>],
      \<lparr>closed = False, t_rows = [1]\<rparr>)"
  by (simp add: batch'_def mini_sqlite_def mini_rollback_def mini_execute_def mini_cursor_def
        empty_db_def mk_stmt_def Let_def)

section \<open>The leading rollback\<close>

text \<open>
  C5, as amended (a failing rollback). When \<^verbatim>\<open>conn.rollback()\<close> raises \<open>e\<close>, \<^verbatim>\<open>_batch\<close> raises
  \<open>e\<close> itself, whatever its class: the call stands outside the \<^verbatim>\<open>try\<close>. No statement is
  executed and no result set is returned.
\<close>

theorem batch_rollback_failure:
  "fst (rollback eng c) = Some e \<Longrightarrow>
   batch' eng c stmts = (Inl e, snd (rollback eng c)) \<and>
   batch' (logged eng) (c, []) stmts = (Inl e, (snd (rollback eng c), [Rollback]))"
  by (cases "rollback eng c") (simp add: batch'_def logged_rollback)

theorem batch_rollback_failure_witness:
  "fst (rollback mini_sqlite closed_db) =
     Some (DatabaseError ''Cannot operate on a closed database.'') \<and>
   batch' mini_sqlite closed_db [mk_stmt ''SELECT * FROM t'' []] =
     (Inl (DatabaseError ''Cannot operate on a closed database.''), closed_db) \<and>
   batch' (logged mini_sqlite) (closed_db, []) [mk_stmt ''SELECT * FROM t'' []] =
     (Inl (DatabaseError ''Cannot operate on a closed database.''), (closed_db, [Rollback]))"
proof -
  have h: "fst (rollback mini_sqlite closed_db) =
      Some (DatabaseError ''Cannot operate on a closed database.'')"
    by (simp add: mini_sqlite_def mini_rollback_def closed_db_def)
  have s: "snd (rollback mini_sqlite closed_db) = closed_db"
    by (simp add: mini_sqlite_def mini_rollback_def closed_db_def)
  show ?thesis
    using h batch_rollback_failure [OF h, of "[mk_stmt ''SELECT * FROM t'' []]"] by (simp add: s)
qed

text \<open>
  C5 as stated fails: on a closed connection the rollback raises a database error, and the
  caller receives that database error, not a client response error with its message;
  the same class of error raised by a statement is translated.
\<close>

theorem rollback_failure_not_translated:
  "fst (rollback mini_sqlite closed_db) =
     Some (DatabaseError ''Cannot operate on a closed database.'') \<and>
   fst (batch' mini_sqlite closed_db []) =
     Inl (DatabaseError ''Cannot operate on a closed database.'') \<and>
   fst (batch' mini_sqlite closed_db []) \<noteq>
     Inl (ClientResponseError ''Cannot operate on a closed database.'') \<and>
   fst (execute mini_sqlite empty_db (mk_stmt ''SELECT * FROM missing'' [])) =
     Inl (DatabaseError ''no such table: missing'') \<and>
   fst (batch' mini_sqlite empty_db [mk_stmt ''SELECT * FROM missing'' []]) =
     Inl (ClientResponseError ''no such table: missing'')"
  by (simp add: batch'_def mini_sqlite_def mini_rollback_def mini_execute_def closed_db_def
        empty_db_def mk_stmt_def)

text \<open>
  C6 (the rollback comes first, unconditionally). For every engine, connection state and
  statement list, the calls that \<^verbatim>\<open>_batch\<close> makes on the handle are one rollback followed
  by the executions of a prefix of the statements, in order; the wrapper that records the
  calls returns what the engine returns.
\<close>

theorem batch_rollback_first:
  "fst (batch' (logged eng) (c, []) stmts) = fst (batch' eng c stmts) \<and>
   fst (snd (batch' (logged eng) (c, []) stmts)) = snd (batch' eng c stmts) \<and>
   (\<exists>k\<le>length stmts.
      snd (snd (batch' (logged eng) (c, []) stmts)) = Rollback # map Execute (take k stmts))"
proof -
  obtain r c0 where rb: "rollback eng c = (r, c0)" by (cases "rollback eng c")
  have "\<exists>k\<le>length stmts.
      snd (snd (batch' (logged eng) (c, []) stmts)) = Rollback # map Execute (take k stmts)"
  proof (cases r)
    case None
    from batch_loop_logged_ops [of stmts eng c0 "[Rollback]" "[]"]
    show ?thesis using rb None by (simp add: batch'_def logged_rollback)
  next
    case (Some e)
    have "snd (snd (batch' (logged eng) (c, []) stmts)) = Rollback # map Execute (take 0 stmts)"
      using rb Some by (simp add: batch'_def logged_rollback)
    then show ?thesis by blast
  qed
  with batch'_logged_answer [of eng c "[]" stmts] show ?thesis by blast
qed

theorem batch_rollback_first_witness:
  "(\<exists>k\<le>length [mk_stmt ''SELECT * FROM t'' [], mk_stmt ''SELECT * FROM missing'' [],
                   mk_stmt ''SELECT * FROM t'' []].
      snd (snd (batch' (logged mini_sqlite) (empty_db, [])
        [mk_stmt ''SELECT * FROM t'' [], mk_stmt ''SELECT * FROM missing'' [],
         mk_stmt ''SELECT * FROM t'' []])) =
      Rollback # map Execute (take k
        [mk_stmt ''SELECT * FROM t'' [], mk_stmt ''SELECT * FROM missing'' [],
         mk_stmt ''SELECT * FROM t'' []])) \<and>
   snd (snd (batch' (logged mini_sqlite) (empty_db, [])
        [mk_stmt ''SELECT * FROM t'' [], mk_stmt ''SELECT * FROM missing'' [],
         mk_stmt ''SELECT * FROM t'' []])) =
     [Rollback, Execute (mk_stmt ''SELECT * FROM t'' []),
      Execute (mk_stmt ''SELECT * FROM missing'' [])] \<and>
   snd (snd (batch' (logged mini_sqlite) (empty_db, []) [])) = [Rollback]"
  using batch_rollback_first [of mini_sqlite empty_db
      "[mk_stmt ''SELECT * FROM t'' [], mk_stmt ''SELECT * FROM missing'' [],
        mk_stmt ''SELECT * FROM t'' []]"]
  by (simp add: batch'_def logged_rollback logged_execute mini_sqlite_def mini_rollback_def
        mini_execute_def mini_cursor_def empty_db_def mk_stmt_def Let_def)

section \<open>Lookups in a row\<close>

text \<open>
  C7, as amended (lookup by name against lookup by position). In every result set that
  \<^verbatim>\<open>_batch\<close> returns and every row of it, for every column position \<open>i\<close> whose name does
  not occur again at a later position, looking the value up by that name gives what
  looking it up at position \<open>i\<close> gives. In particular this holds at every position when
  the column names are distinct.
\<close>

theorem name_lookup_eq_index_lookup:
  assumes "batch' eng c stmts = (Inr result_sets, c')"
      and "rs \<in> set result_sets" and "r \<in> set (rows rs)"
      and "i < length (columns rs)"
      and "columns rs ! i \<notin> set (drop (Suc i) (columns rs))"
  shows "column_idxs r (columns rs ! i) = Some i \<and>
         row_get_name r (columns rs ! i) = row_get_idx r i"
proof -
  have "column_idxs r = build_column_idxs (columns rs)"
    using assms(1-3) by (rule batch'_rows)
  moreover have "build_column_idxs (columns rs) (columns rs ! i) = Some i"
    using assms(4,5) by (rule build_column_idxs_last)
  ultimately show ?thesis by (simp add: row_get_name_def)
qed

theorem name_lookup_eq_index_lookup_witness:
  "batch' mini_sqlite empty_db [mk_stmt ''SELECT 1 AS a, 2 AS a'' []] =
     (Inr [\<lparr>columns = [''a'', ''a''], rows = [dup_row]\<rparr>], empty_db) \<and>
   column_idxs dup_row ([''a'', ''a''] ! 1) = Some 1 \<and>
   row_get_name dup_row ([''a'', ''a''] ! 1) = row_get_idx dup_row 1 \<and>
   row_get_idx dup_row 1 = Inr 2"
proof -
  have "column_idxs dup_row (columns \<lparr>columns = [''a'', ''a''], rows = [dup_row]\<rparr> ! 1) = Some 1 \<and>
      row_get_name dup_row (columns \<lparr>columns = [''a'', ''a''], rows = [dup_row]\<rparr> ! 1) =
      row_get_idx dup_row 1"
    by (rule name_lookup_eq_index_lookup [OF dup_batch]) simp_all
  then show ?thesis by (simp add: dup_batch dup_row_lookups)
qed

text \<open>
  C7 as stated fails: \<^verbatim>\<open>SELECT 1 AS a, 2 AS a\<close> gives the columns \<^verbatim>\<open>["a", "a"]\<close> and the
  row \<^verbatim>\<open>(1, 2)\<close>. The name at position 0 is \<^verbatim>\<open>a\<close>; the lookup by that name gives 2, the
  lookup at position 0 gives 1.
\<close>

theorem duplicate_name_lookup_differs:
  "fst (batch' mini_sqlite empty_db [mk_stmt ''SELECT 1 AS a, 2 AS a'' []]) =
     Inr [\<lparr>columns = [''a'', ''a''], rows = [dup_row]\<rparr>] \<and>
   [''a'', ''a''] ! 0 = ''a'' \<and>
   row_get_name dup_row ''a'' = Inr 2 \<and>
   row_get_idx dup_row 0 = Inr 1 \<and>
   row_get_name dup_row ([''a'', ''a''] ! 0) \<noteq> row_get_idx dup_row 0"
  by (simp add: dup_batch dup_row_lookups)

text \<open>
  C9 (a column name at several positions). In every result set that \<^verbatim>\<open>_batch\<close> returns
  and every row of it, the dictionary maps each column name to the last position that
  bears this name, and the lookup by name gives what the lookup at that position gives.
\<close>

theorem name_lookup_last_occurrence:
  assumes "batch' eng c stmts = (Inr result_sets, c')"
      and "rs \<in> set result_sets" and "r \<in> set (rows rs)"
      and "name \<in> set (columns rs)"
  shows "\<exists>i<length (columns rs).
           columns rs ! i = name \<and> name \<notin> set (drop (Suc i) (columns rs)) \<and>
           column_idxs r name = Some i \<and> row_get_name r name = row_get_idx r i"
proof -
  from assms(4) obtain ys zs where split: "columns rs = ys @ name # zs" "name \<notin> set zs"
    by (auto dest: split_list_last)
  have idxs: "column_idxs r = build_column_idxs (columns rs)"
    using assms(1-3) by (rule batch'_rows)
  have "column_idxs r name = Some (length ys)"
    using split by (simp add: idxs build_column_idxs_split)
  moreover have "length ys < length (columns rs)" "columns rs ! length ys = name"
    "name \<notin> set (drop (Suc (length ys)) (columns rs))"
    using split by simp_all
  ultimately show ?thesis by (auto simp: row_get_name_def)
qed

theorem name_lookup_last_occurrence_witness:
  "batch' mini_sqlite empty_db [mk_stmt ''SELECT 1 AS a, 2 AS a'' []] =
     (Inr [\<lparr>columns = [''a'', ''a''], rows = [dup_row]\<rparr>], empty_db) \<and>
   (\<exists>i<length [''a'', ''a''].
      [''a'', ''a''] ! i = ''a'' \<and> ''a'' \<notin> set (drop (Suc i) [''a'', ''a'']) \<and>
      column_idxs dup_row ''a'' = Some i \<and> row_get_name dup_row ''a'' = row_get_idx dup_row i) \<and>
   column_idxs dup_row ''a'' = Some 1 \<and> row_get_name dup_row ''a'' = Inr 2"
proof -
  have "\<exists>i<length (columns \<lparr>columns = [''a'', ''a''], rows = [dup_row]\<rparr>).
      columns \<lparr>columns = [''a'', ''a''], rows = [dup_row]\<rparr> ! i = ''a'' \<and>
      ''a'' \<notin> set (drop (Suc i) (columns \<lparr>columns = [''a'', ''a''], rows = [dup_row]\<rparr>)) \<and>
      column_idxs dup_row ''a'' = Some i \<and> row_get_name dup_row ''a'' = row_get_idx dup_row i"
    by (rule name_lookup_last_occurrence [OF dup_batch]) simp_all
  then show ?thesis by (simp add: dup_batch dup_row_lookups)
qed

section \<open>The gate\<close>

text \<open>A call that finds the lock held does not reach \<^verbatim>\<open>_batch\<close>: it is suspended.\<close>

lemma batch_suspends_while_held:
  "locked (driver_conn_lock self) \<Longrightarrow> batch eng self stmts = None"
  by (simp add: batch_def acquire_def)



section \<open>The empty batch\<close>




end
